theory Spec2Isabelle
  imports Main "HOL-Library.Word"
begin

section \<open>hbcdump: the command shell of the bytecode dump tool\<close>

text \<open>
  A shallow embedding of \<^verbatim>\<open>tools/hbcdump/hbcdump.cpp\<close>: the flag extractor
  \<^verbatim>\<open>findAndRemoveOne\<close>, the option holder \<^verbatim>\<open>DisassemblerOptionsHolder\<close>, the help
  printer \<^verbatim>\<open>printHelp\<close>, the dispatcher \<^verbatim>\<open>executeCommand\<close> and the session loop
  \<^verbatim>\<open>enterCommandLoop\<close>. The analyzer, the disassembler and the printer are external
  services: a call to one of them is recorded as an event of the session's trace, with
  the arguments it was given.
\<close>

subsection \<open>String functions of the support library\<close>

text \<open>
  \<^verbatim>\<open>StringRef::find(char)\<close>: the index of the first occurrence, \<open>None\<close> for \<^verbatim>\<open>npos\<close>.
\<close>

fun StringRef_find :: "string \<Rightarrow> char \<Rightarrow> nat option" where
  "StringRef_find [] c = None"
| "StringRef_find (x # xs) c =
     (if x = c then Some 0 else map_option Suc (StringRef_find xs c))"

lemma StringRef_find_less: "StringRef_find S c = Some i \<Longrightarrow> i < length S"
  by (induction S arbitrary: i) (auto split: if_splits)

text \<open>
  Modelled from the spec: the tokenizer \<^verbatim>\<open>StringRef::split(A, ' ')\<close> called at line 241
  belongs to the support library, not to this file. Section 4.2 of the specification
  describes it as simple splitting on single spaces in which consecutive spaces produce
  empty tokens; that is the library function with its default arguments (no limit on
  the number of splits, empty pieces kept): cut at every separator, then push the tail,
  whatever it is. The result therefore always has at least one token.
\<close>

function StringRef_split :: "string \<Rightarrow> char \<Rightarrow> string list" where
  "StringRef_split S Separator =
     (case StringRef_find S Separator of
        None \<Rightarrow> [S]
      | Some Idx \<Rightarrow> take Idx S # StringRef_split (drop (Suc Idx) S) Separator)"
  by pat_completeness auto
termination
  by (relation "measure (\<lambda>(S, c). length S)") (auto dest: StringRef_find_less)

declare StringRef_split.simps [simp del]

definition startswith :: "string \<Rightarrow> string \<Rightarrow> bool" where
  "startswith Str Prefix = (take (length Prefix) Str = Prefix)"

definition isDigit :: "char \<Rightarrow> bool" where
  "isDigit c = (of_char CHR ''0'' \<le> (of_char c :: nat) \<and> (of_char c :: nat) \<le> of_char CHR ''9'')"

text \<open>
  Modelled from the spec: \<^verbatim>\<open>StringRef::getAsInteger(0, uint32_t &)\<close> also belongs to the
  support library. Section 4.5 says that numeric arguments are parsed as unsigned
  integers accepting any base prefix; the definitions below follow the library: radix 0
  selects the radix from the prefix (\<^verbatim>\<open>0x\<close>, \<^verbatim>\<open>0b\<close>, \<^verbatim>\<open>0o\<close>, a leading zero, else
  decimal), the digits are accumulated in an unsigned 64-bit integer with an overflow
  check, the whole string must be consumed, and the value must fit the 32-bit result.
  The library returns true on failure; here failure is \<open>None\<close>.
\<close>

definition GetAutoSenseRadix :: "string \<Rightarrow> nat \<times> string" where
  "GetAutoSenseRadix Str =
     (if Str = [] then (10, Str)
      else if startswith Str ''0x'' \<or> startswith Str ''0X'' then (16, drop 2 Str)
      else if startswith Str ''0b'' \<or> startswith Str ''0B'' then (2, drop 2 Str)
      else if startswith Str ''0o'' then (8, drop 2 Str)
      else if Str ! 0 = CHR ''0'' \<and> length Str > 1 \<and> isDigit (Str ! 1) then (8, drop 1 Str)
      else (10, Str))"

definition CharVal :: "char \<Rightarrow> nat option" where
  "CharVal c =
     (let n = (of_char c :: nat) in
      if of_char CHR ''0'' \<le> n \<and> n \<le> of_char CHR ''9'' then Some (n - of_char CHR ''0'')
      else if of_char CHR ''a'' \<le> n \<and> n \<le> of_char CHR ''z'' then Some (n - of_char CHR ''a'' + 10)
      else if of_char CHR ''A'' \<le> n \<and> n \<le> of_char CHR ''Z'' then Some (n - of_char CHR ''A'' + 10)
      else None)"

text \<open>
  The digit loop: \<open>None\<close> when the 64-bit accumulator overflows, otherwise the
  unconsumed rest of the string and the value read so far.
\<close>

fun consumeDigits :: "nat \<Rightarrow> string \<Rightarrow> 64 word \<Rightarrow> (string \<times> 64 word) option" where
  "consumeDigits Radix [] Result = Some ([], Result)"
| "consumeDigits Radix (c # Str2) PrevResult =
     (case CharVal c of
        None \<Rightarrow> Some (c # Str2, PrevResult)
      | Some v \<Rightarrow>
          if v \<ge> Radix then Some (c # Str2, PrevResult)
          else
            (let Result = PrevResult * of_nat Radix + of_nat v in
             if Result div of_nat Radix < PrevResult then None
             else consumeDigits Radix Str2 Result))"

definition consumeUnsignedInteger :: "string \<Rightarrow> nat \<Rightarrow> (string \<times> 64 word) option" where
  "consumeUnsignedInteger Str0 Radix0 =
     (let (Radix, Str) = (if Radix0 = 0 then GetAutoSenseRadix Str0 else (Radix0, Str0)) in
      if Str = [] then None
      else
        (case consumeDigits Radix Str 0 of
           None \<Rightarrow> None
         | Some (Str2, Result) \<Rightarrow>
             if length Str = length Str2 then None else Some (Str2, Result)))"

definition getAsUnsignedInteger :: "string \<Rightarrow> nat \<Rightarrow> 64 word option" where
  "getAsUnsignedInteger Str Radix =
     (case consumeUnsignedInteger Str Radix of
        None \<Rightarrow> None
      | Some (Rest, Result) \<Rightarrow> if Rest \<noteq> [] then None else Some Result)"

definition getAsInteger :: "string \<Rightarrow> nat \<Rightarrow> 32 word option" where
  "getAsInteger Str Radix =
     (case getAsUnsignedInteger Str Radix of
        None \<Rightarrow> None
      | Some ULLVal \<Rightarrow>
          if (ucast (ucast ULLVal :: 32 word) :: 64 word) \<noteq> ULLVal then None
          else Some (ucast ULLVal))"

subsection \<open>The data of a session\<close>

text \<open>
  Modelled from the spec: the enumeration \<^verbatim>\<open>DisassemblyOptions\<close> is declared in the
  disassembler's header, which is not part of this file. Section 3 describes it as a
  bitmask-like set of independent boolean toggles (include-source, include-function-ids,
  pretty-print, include-virtual-offsets). An option value is the set of the toggles
  that are on: \<^verbatim>\<open>None\<close> is the empty set and \<^verbatim>\<open>|\<close> is union.
\<close>

datatype DisassemblyOption = Pretty | IncludeSource | IncludeVirtualOffsets | IncludeFunctionIds

type_synonym DisassemblyOptions = "DisassemblyOption set"

text \<open>
  The calls into the external services. A disassembler call carries the option set in
  force when it is made; a call that takes a printer carries the printer's mode
  (\<open>True\<close> for JSON).
\<close>

datatype call =
    DumpFunctionStats
  | DumpFunctionBasicBlockStat "32 word"
  | DumpInstructionStats
  | Disassemble DisassemblyOptions
  | DisassembleFunction "32 word" DisassemblyOptions
  | DumpString "32 word"
  | DumpFileName "32 word"
  | DumpAllFunctionOffsets bool
  | DumpFunctionOffsets "32 word" bool
  | DumpIO
  | DumpSummary
  | DumpBasicBlockStats
  | DumpEpilogue

text \<open>
  What a session does, in order: a write to the stream \<^verbatim>\<open>os\<close> (a string, or a 32-bit
  number printed in decimal), a write to \<^verbatim>\<open>llvm::outs()\<close>, which is where \<^verbatim>\<open>printHelp\<close>
  writes, or a service call. One event stands for one operand of \<^verbatim>\<open><<\<close>.
\<close>

datatype event = Os string | OsNum "32 word" | Outs string | Call call

record session =
  options :: DisassemblyOptions
  trace :: "event list"

text \<open>
  The analyzer's only query used by the dispatcher, \<^verbatim>\<open>getFunctionFromVirtualOffset\<close>.
\<close>

type_synonym ProfileAnalyzer = "32 word \<Rightarrow> 32 word option"

text \<open>
  \<^verbatim>\<open>commandTokens[i]\<close>: the small vector does not check its index, so a read past the
  end is an error of the model, not a value.
\<close>

datatype error = OutOfBounds

definition tokenAt :: "string list \<Rightarrow> nat \<Rightarrow> error + string" where
  "tokenAt commandTokens i =
     (if i < length commandTokens then Inr (commandTokens ! i) else Inl OutOfBounds)"

definition emit :: "session \<Rightarrow> event list \<Rightarrow> session" where
  "emit st es = st\<lparr>trace := trace st @ es\<rparr>"

definition os_write :: "session \<Rightarrow> string \<Rightarrow> session" where
  "os_write st s = emit st [Os s]"

definition service :: "session \<Rightarrow> call \<Rightarrow> session" where
  "service st c = emit st [Call c]"

definition getOptions :: "session \<Rightarrow> DisassemblyOptions" where
  "getOptions st = options st"

definition setOptions :: "session \<Rightarrow> DisassemblyOptions \<Rightarrow> session" where
  "setOptions st newOptions = st\<lparr>options := newOptions\<rparr>"

definition disassemble :: "session \<Rightarrow> session" where
  "disassemble st = service st (Disassemble (getOptions st))"

definition disassembleFunction :: "session \<Rightarrow> 32 word \<Rightarrow> session" where
  "disassembleFunction st funcId = service st (DisassembleFunction funcId (getOptions st))"

subsection \<open>findAndRemoveOne (lines 201-211)\<close>

text \<open>
  \<^verbatim>\<open>std::find\<close> returns the position of the first element equal to the needle, or the
  end position (the length); \<^verbatim>\<open>erase\<close> removes the element at a position.
\<close>

fun std_find :: "'a list \<Rightarrow> 'a \<Rightarrow> nat" where
  "std_find [] needle = 0"
| "std_find (x # xs) needle = (if x = needle then 0 else Suc (std_find xs needle))"

definition erase :: "'a list \<Rightarrow> nat \<Rightarrow> 'a list" where
  "erase haystack it = take it haystack @ drop (Suc it) haystack"

definition findAndRemoveOne :: "'a list \<Rightarrow> 'a \<Rightarrow> 'a list \<times> bool" where
  "findAndRemoveOne haystack needle =
     (let it = std_find haystack needle in
      if it \<noteq> length haystack then (erase haystack it, True)
      else (haystack, False))"

subsection \<open>printHelp (lines 102-158)\<close>

text \<open>
  The table \<^verbatim>\<open>commandToHelpText\<close>, entry by entry as the source declares it.
\<close>

definition commandToHelpText :: "(string \<times> string) list" where
  "commandToHelpText =
    [(''function'',
        '''function': Compute the runtime instruction frequency '' @
        ''for each function and display in desceding order.'' @
        ''Each function name is displayed together with its source code line number .\<newline>'' @
        '''function <FUNC_ID>': Dump basic block stats for function with id <FUNC_ID>.\<newline>\<newline>'' @
        ''USAGE: function <FUNC_ID>\<newline>'' @
        ''       func <FUNC_ID>\<newline>''),
     (''instruction'',
        ''Computes the runtime instruction frequency for each instruction'' @
        ''and displays it in descending order.\<newline>\<newline>'' @
        ''USAGE: instruction\<newline>'' @
        ''       inst\<newline>''),
     (''disassemble'',
        '''disassemble': Display bytecode disassembled output of whole binary.\<newline>'' @
        '''disassemble <FUNC_ID>': Display bytecode disassembled output of function with id <FUNC_ID>.\<newline>'' @
        ''Add the '-offsets' flag to show virtual offsets for all instructions.\<newline>\<newline>'' @
        ''USAGE: disassemble <FUNC_ID> [-offsets]\<newline>'' @
        ''       dis <FUNC_ID> [-offsets]\<newline>''),
     (''summary'',
        ''Display overall summary information.\<newline>\<newline>'' @
        ''USAGE: summary\<newline>''),
     (''io'',
        ''Visualize function page I/O access working set'' @
        ''in basic block profile trace.\<newline>\<newline>'' @
        ''USAGE: io\<newline>''),
     (''block'',
        ''Display top hot basic blocks in sorted order.\<newline>\<newline>'' @
        ''USAGE: block\<newline>''),
     (''at-virtual'',
        ''Display information about the function at a given virtual offset.\<newline>\<newline>'' @
        ''USAGE: at-virtual <OFFSET> [-json]\<newline>''),
     (''help'',
        ''Help instructions for hbcdump tool commands.\<newline>\<newline>'' @
        ''USAGE: help <COMMAND>\<newline>'' @
        ''       h <COMMAND>\<newline>'')]"

definition topLevelHelpText :: string where
  "topLevelHelpText =
     ''These commands are defined internally. Type `help' to see this list.\<newline>'' @
     ''Type `help name' to find out more about the function `name'.\<newline>\<newline>''"

text \<open>
  The events \<^verbatim>\<open>printHelp\<close> writes to \<^verbatim>\<open>llvm::outs()\<close>. The argument is the optional
  command name. The table is an unordered map, whose iteration order is not fixed; the
  top-level listing below takes the order of declaration, and nothing proved in this
  theory depends on that order.
\<close>

definition printHelp :: "string option \<Rightarrow> event list" where
  "printHelp command =
     (if command \<noteq> None \<and> the command \<noteq> [] then
        (case map_of commandToHelpText (the command) of
           None \<Rightarrow> [Outs ''Invalid command: '', Outs (the command), Outs ''\<newline>'']
         | Some text \<Rightarrow> [Outs text])
      else
        Outs topLevelHelpText #
          concat (map (\<lambda>it. [Outs (fst it), Outs ''\<newline>'']) commandToHelpText))"

text \<open>The text that a list of events puts on \<^verbatim>\<open>llvm::outs()\<close>.\<close>

fun outs_text :: "event list \<Rightarrow> string" where
  "outs_text [] = []"
| "outs_text (Outs s # es) = s @ outs_text es"
| "outs_text (e # es) = outs_text es"

subsection \<open>DisassemblerOptionsHolder (lines 213-230)\<close>

text \<open>
  The constructor saves the disassembler's options and sets the new ones; it returns
  the session and the holder's field \<^verbatim>\<open>savedOptions_\<close>. The destructor sets the saved
  options again.
\<close>

definition DisassemblerOptionsHolder ::
  "session \<Rightarrow> DisassemblyOptions \<Rightarrow> session \<times> DisassemblyOptions" where
  "DisassemblerOptionsHolder disassembler newOptions =
     (let savedOptions = getOptions disassembler in
      (setOptions disassembler newOptions, savedOptions))"

definition DisassemblerOptionsHolder_destroy ::
  "session \<Rightarrow> DisassemblyOptions \<Rightarrow> session" where
  "DisassemblerOptionsHolder_destroy disassembler savedOptions =
     setOptions disassembler savedOptions"

subsection \<open>executeCommand (lines 232-363)\<close>

text \<open>
  How control leaves the chain of command branches: by a \<^verbatim>\<open>return\<close> with the given
  value, or by reaching the end of the chain (line 361).
\<close>

datatype flow = Return bool | EndOfChain

text \<open>
  The branches of the chain that have a body of their own, each under the name of its
  command. All of them take the session, the first token \<^verbatim>\<open>command\<close> and the token
  sequence, and say how control leaves the chain.
\<close>

text \<open>Lines 248-261: \<^verbatim>\<open>function\<close>, \<^verbatim>\<open>fun\<close>.\<close>

definition functionBranch ::
  "session \<Rightarrow> string \<Rightarrow> string list \<Rightarrow> error + session \<times> flow" where
  "functionBranch st command commandTokens =
     (if length commandTokens = 1 then Inr (service st DumpFunctionStats, EndOfChain)
      else if length commandTokens = 2 then
        (case tokenAt commandTokens 1 of
           Inl e \<Rightarrow> Inl e
         | Inr tok \<Rightarrow>
             (case getAsInteger tok 0 of
                None \<Rightarrow>
                  Inr (os_write st ''Error: cannot parse func_id as integer.\<newline>'', Return False)
              | Some funcId \<Rightarrow>
                  Inr (service st (DumpFunctionBasicBlockStat funcId), EndOfChain)))
      else Inr (emit st (printHelp (Some command)), Return False))"

text \<open>Lines 262-268: \<^verbatim>\<open>instruction\<close>, \<^verbatim>\<open>inst\<close>.\<close>

definition instructionBranch ::
  "session \<Rightarrow> string \<Rightarrow> string list \<Rightarrow> error + session \<times> flow" where
  "instructionBranch st command commandTokens =
     (if length commandTokens = 1 then Inr (service st DumpInstructionStats, EndOfChain)
      else Inr (emit st (printHelp (Some command)), Return False))"

text \<open>
  Lines 269-287: \<^verbatim>\<open>disassemble\<close>, \<^verbatim>\<open>dis\<close>. The holder lives for the whole block, so
  its destructor runs on every way out of the block, after the body.
\<close>

definition disassembleBranch ::
  "session \<Rightarrow> string \<Rightarrow> string list \<Rightarrow> error + session \<times> flow" where
  "disassembleBranch st0 command commandTokens0 =
     (let (commandTokens, found) = findAndRemoveOne commandTokens0 ''-offsets'';
          localOptions = (if found then {IncludeVirtualOffsets} else {});
          (st, optionsHolder) = DisassemblerOptionsHolder st0 (getOptions st0 \<union> localOptions);
          body =
            (if length commandTokens = 1 then Inr (disassemble st, EndOfChain)
             else if length commandTokens = 2 then
               (case tokenAt commandTokens 1 of
                  Inl e \<Rightarrow> Inl e
                | Inr tok \<Rightarrow>
                    (case getAsInteger tok 0 of
                       None \<Rightarrow>
                         Inr (os_write st ''Error: cannot parse func_id as integer.\<newline>'',
                              Return False)
                     | Some funcId \<Rightarrow> Inr (disassembleFunction st funcId, EndOfChain)))
             else Inr (emit st (printHelp (Some command)), Return False))
      in (case body of
            Inl e \<Rightarrow> Inl e
          | Inr (st', fl) \<Rightarrow> Inr (DisassemblerOptionsHolder_destroy st' optionsHolder, fl)))"

text \<open>Lines 288-294: \<^verbatim>\<open>string\<close>, \<^verbatim>\<open>str\<close>. The token at position 1 is read at once.\<close>

definition stringBranch ::
  "session \<Rightarrow> string list \<Rightarrow> error + session \<times> flow" where
  "stringBranch st commandTokens =
     (case tokenAt commandTokens 1 of
        Inl e \<Rightarrow> Inl e
      | Inr tok \<Rightarrow>
          (case getAsInteger tok 0 of
             None \<Rightarrow>
               Inr (os_write st ''Error: cannot parse string_id as integer.\<newline>'', Return False)
           | Some stringId \<Rightarrow> Inr (service st (DumpString stringId), EndOfChain)))"

text \<open>Lines 295-301: \<^verbatim>\<open>filename\<close>.\<close>

definition filenameBranch ::
  "session \<Rightarrow> string list \<Rightarrow> error + session \<times> flow" where
  "filenameBranch st commandTokens =
     (case tokenAt commandTokens 1 of
        Inl e \<Rightarrow> Inl e
      | Inr tok \<Rightarrow>
          (case getAsInteger tok 0 of
             None \<Rightarrow>
               Inr (os_write st ''Error: cannot parse filename_id as integer.\<newline>'', Return False)
           | Some filenameId \<Rightarrow> Inr (service st (DumpFileName filenameId), EndOfChain)))"

text \<open>Lines 302-317: \<^verbatim>\<open>offset\<close>, \<^verbatim>\<open>offsets\<close>.\<close>

definition offsetBranch ::
  "session \<Rightarrow> string list \<Rightarrow> error + session \<times> flow" where
  "offsetBranch st commandTokens0 =
     (let (commandTokens, json) = findAndRemoveOne commandTokens0 ''-json'' in
      if length commandTokens = 1 then Inr (service st (DumpAllFunctionOffsets json), EndOfChain)
      else if length commandTokens = 2 then
        (case tokenAt commandTokens 1 of
           Inl e \<Rightarrow> Inl e
         | Inr tok \<Rightarrow>
             (case getAsInteger tok 0 of
                None \<Rightarrow>
                  Inr (os_write st ''Error: cannot parse func_id as integer.\<newline>'', Return False)
              | Some funcId \<Rightarrow>
                  Inr (service st (DumpFunctionOffsets funcId json), EndOfChain)))
      else Inr (os_write st ''Usage: offsets [funcId]\<newline>'', EndOfChain))"

text \<open>Lines 324-343: \<^verbatim>\<open>at_virtual\<close>, \<^verbatim>\<open>at-virtual\<close>.\<close>

definition atVirtualBranch ::
  "ProfileAnalyzer \<Rightarrow> session \<Rightarrow> string \<Rightarrow> string list \<Rightarrow> error + session \<times> flow" where
  "atVirtualBranch analyzer st command commandTokens0 =
     (let (commandTokens, json) = findAndRemoveOne commandTokens0 ''-json'' in
      if length commandTokens = 2 then
        (case tokenAt commandTokens 1 of
           Inl e \<Rightarrow> Inl e
         | Inr tok \<Rightarrow>
             (case getAsInteger tok 0 of
                None \<Rightarrow>
                  Inr (os_write st ''Error: cannot parse virtualOffset as integer.\<newline>'',
                       Return False)
              | Some virtualOffset \<Rightarrow>
                  (case analyzer virtualOffset of
                     Some funcId \<Rightarrow>
                       Inr (service st (DumpFunctionOffsets funcId json), EndOfChain)
                   | None \<Rightarrow>
                       Inr (emit st [Os ''Virtual offset '', OsNum virtualOffset,
                                     Os '' is invalid.\<newline>''], EndOfChain))))
      else Inr (emit st (printHelp (Some command)), Return False))"

text \<open>Lines 346-353: \<^verbatim>\<open>help\<close>, \<^verbatim>\<open>h\<close>.\<close>

definition helpBranch ::
  "session \<Rightarrow> string list \<Rightarrow> error + session \<times> flow" where
  "helpBranch st commandTokens =
     (if length commandTokens = 2 then
        (case tokenAt commandTokens 1 of
           Inl e \<Rightarrow> Inl e
         | Inr tok \<Rightarrow> Inr (emit st (printHelp (Some tok)), Return False))
      else Inr (emit st (printHelp None), Return False))"

text \<open>The chain of lines 247-360, in the order of the source.\<close>

definition commandChain ::
  "ProfileAnalyzer \<Rightarrow> session \<Rightarrow> string \<Rightarrow> string list \<Rightarrow> error + session \<times> flow" where
  "commandChain analyzer st command commandTokens =
    (if command = ''function'' \<or> command = ''fun'' then
       functionBranch st command commandTokens
     else if command = ''instruction'' \<or> command = ''inst'' then
       instructionBranch st command commandTokens
     else if command = ''disassemble'' \<or> command = ''dis'' then
       disassembleBranch st command commandTokens
     else if command = ''string'' \<or> command = ''str'' then stringBranch st commandTokens
     else if command = ''filename'' then filenameBranch st commandTokens
     else if command = ''offset'' \<or> command = ''offsets'' then offsetBranch st commandTokens
     else if command = ''io'' then Inr (service st DumpIO, EndOfChain)
     else if command = ''summary'' \<or> command = ''sum'' then Inr (service st DumpSummary, EndOfChain)
     else if command = ''block'' then Inr (service st DumpBasicBlockStats, EndOfChain)
     else if command = ''at_virtual'' \<or> command = ''at-virtual'' then
       atVirtualBranch analyzer st command commandTokens
     else if command = ''epilogue'' \<or> command = ''epi'' then
       Inr (service st DumpEpilogue, EndOfChain)
     else if command = ''help'' \<or> command = ''h'' then helpBranch st commandTokens
     else if command = ''quit'' then Inr (st, Return True)
     else Inr (emit st (printHelp (Some command)), Return False))"

text \<open>
  The function on a token sequence: the test for the empty sequence (lines 242-245),
  the first token, the chain, and the separator of lines 361-362.
\<close>

definition executeTokens ::
  "ProfileAnalyzer \<Rightarrow> session \<Rightarrow> string list \<Rightarrow> error + session \<times> bool" where
  "executeTokens analyzer st commandTokens =
     (if commandTokens = [] then Inr (st, False)
      else
        (case tokenAt commandTokens 0 of
           Inl e \<Rightarrow> Inl e
         | Inr command \<Rightarrow>
             (case commandChain analyzer st command commandTokens of
                Inl e \<Rightarrow> Inl e
              | Inr (st', Return terminate) \<Rightarrow> Inr (st', terminate)
              | Inr (st', EndOfChain) \<Rightarrow> Inr (os_write st' ''\<newline>'', False))))"

definition executeCommand ::
  "ProfileAnalyzer \<Rightarrow> session \<Rightarrow> string \<Rightarrow> error + session \<times> bool" where
  "executeCommand analyzer st commandWithOptions =
     executeTokens analyzer st (StringRef_split commandWithOptions CHR '' '')"

subsection \<open>enterCommandLoop (lines 160-199)\<close>

text \<open>
  The loop over the startup commands (lines 184-189), with the flag \<^verbatim>\<open>terminateLoop\<close>.
\<close>

fun startupLoop ::
  "ProfileAnalyzer \<Rightarrow> session \<Rightarrow> bool \<Rightarrow> string list \<Rightarrow> error + session \<times> bool" where
  "startupLoop analyzer st terminateLoop [] = Inr (st, terminateLoop)"
| "startupLoop analyzer st terminateLoop (command # startupCommands) =
     (case executeCommand analyzer st command of
        Inl e \<Rightarrow> Inl e
      | Inr (st', r) \<Rightarrow>
          startupLoop analyzer st' (if r then True else terminateLoop) startupCommands)"

text \<open>
  The interactive loop (lines 191-198). Standard input is the list of the lines still
  to be read; the result carries the lines left unread.
\<close>

fun interactiveLoop ::
  "ProfileAnalyzer \<Rightarrow> session \<Rightarrow> bool \<Rightarrow> string list \<Rightarrow> error + session \<times> string list" where
  "interactiveLoop analyzer st True input = Inr (st, input)"
| "interactiveLoop analyzer st False [] = Inr (os_write st ''hbcdump> '', [])"
| "interactiveLoop analyzer st False (line # input) =
     (case executeCommand analyzer (os_write st ''hbcdump> '') line of
        Inl e \<Rightarrow> Inl e
      | Inr (st', terminateLoop) \<Rightarrow> interactiveLoop analyzer st' terminateLoop input)"

definition initialSession :: "bool \<Rightarrow> session" where
  "initialSession PrettyDisassemble =
     (let options0 = {IncludeSource} \<union> {IncludeFunctionIds};
          options1 = (if PrettyDisassemble then options0 \<union> {Pretty} else options0)
      in \<lparr>options = options1, trace = []\<rparr>)"

definition enterCommandLoop ::
  "ProfileAnalyzer \<Rightarrow> bool \<Rightarrow> string list \<Rightarrow> string list \<Rightarrow> error + session \<times> string list" where
  "enterCommandLoop analyzer PrettyDisassemble startupCommands input =
     (case startupLoop analyzer (initialSession PrettyDisassemble) False startupCommands of
        Inl e \<Rightarrow> Inl e
      | Inr (st, terminateLoop) \<Rightarrow> interactiveLoop analyzer st terminateLoop input)"

text \<open>
  The startup phase as the specification words it in section 4.7: the first command
  that asks for termination ends the phase, and the commands after it are not
  dispatched. It is compared with \<open>startupLoop\<close> below.
\<close>

fun startupStopAtTerminate ::
  "ProfileAnalyzer \<Rightarrow> session \<Rightarrow> string list \<Rightarrow> error + session \<times> bool" where
  "startupStopAtTerminate analyzer st [] = Inr (st, False)"
| "startupStopAtTerminate analyzer st (command # startupCommands) =
     (case executeCommand analyzer st command of
        Inl e \<Rightarrow> Inl e
      | Inr (st', r) \<Rightarrow>
          if r then Inr (st', True) else startupStopAtTerminate analyzer st' startupCommands)"

text \<open>
  An analyzer for a bytecode file in which no virtual offset belongs to a function; it
  serves as the analyzer of the concrete sessions below.
\<close>

definition noFunctions :: ProfileAnalyzer where
  "noFunctions = (\<lambda>virtualOffset. None)"

subsection \<open>Vocabulary of the claims\<close>

text \<open>
  The message of an unparsable numeric argument, for the name the handler gives the
  argument (\<^verbatim>\<open>func_id\<close>, \<^verbatim>\<open>string_id\<close>, \<^verbatim>\<open>filename_id\<close>, \<^verbatim>\<open>virtualOffset\<close>).
\<close>

definition parseErrorMessage :: "string \<Rightarrow> string" where
  "parseErrorMessage idName = ''Error: cannot parse '' @ idName @ '' as integer.\<newline>''"

text \<open>
  The commands after which the separator is due, as claim C6 is amended below: a
  recognised command other than \<^verbatim>\<open>help\<close> and \<^verbatim>\<open>quit\<close> whose arguments (the tokens after
  the command name, the command's flag removed once) are as many as the command table
  of section 4.5 gives and, where one is a number, parse. \<open>optionalId\<close> is "no argument
  or one numeric id", \<open>oneId\<close> is "exactly one numeric id". For \<^verbatim>\<open>io\<close>, \<^verbatim>\<open>summary\<close>,
  \<^verbatim>\<open>block\<close> and \<^verbatim>\<open>epilogue\<close> any arguments are taken, since their handlers ignore them.
  This is a predicate on the input alone; it does not run the dispatcher.
\<close>

definition parses :: "string \<Rightarrow> bool" where
  "parses tok = (getAsInteger tok 0 \<noteq> None)"

fun optionalId :: "string list \<Rightarrow> bool" where
  "optionalId [] = True"
| "optionalId [tok] = parses tok"
| "optionalId (tok # others) = False"

fun oneId :: "string list \<Rightarrow> bool" where
  "oneId [] = False"
| "oneId [tok] = parses tok"
| "oneId (tok # others) = False"

definition acceptedWithSeparator :: "string \<Rightarrow> string list \<Rightarrow> bool" where
  "acceptedWithSeparator command args =
     (if command \<in> {''function'', ''fun''} then optionalId args
      else if command \<in> {''instruction'', ''inst''} then args = []
      else if command \<in> {''disassemble'', ''dis''} then optionalId (remove1 ''-offsets'' args)
      else if command \<in> {''string'', ''str'', ''filename''} then oneId args
      else if command \<in> {''offset'', ''offsets''} then optionalId (remove1 ''-json'' args)
      else if command \<in> {''io'', ''summary'', ''sum'', ''block'', ''epilogue'', ''epi''} then True
      else if command \<in> {''at_virtual'', ''at-virtual''} then oneId (remove1 ''-json'' args)
      else False)"

text \<open>
  The two argument shapes about which the separator property says nothing: more than
  one argument to \<^verbatim>\<open>offset\<close>, and an argument count other than one to \<^verbatim>\<open>string\<close> or
  \<^verbatim>\<open>filename\<close>.
\<close>

definition notCovered :: "string \<Rightarrow> string list \<Rightarrow> bool" where
  "notCovered command args =
     ((command \<in> {''offset'', ''offsets''} \<and> length (remove1 ''-json'' args) > 1) \<or>
      (command \<in> {''string'', ''str'', ''filename''} \<and> length args \<noteq> 1))"

text \<open>
  The events of a command end with the separator, and hold it once.
\<close>

definition separatorOnly :: "event list \<Rightarrow> bool" where
  "separatorOnly evs = (evs \<noteq> [] \<and> last evs = Os ''\<newline>'' \<and> Os ''\<newline>'' \<notin> set (butlast evs))"

text \<open>
  The vocabulary of claim C2. A run of the startup list is given by \<open>runs\<close>, with one
  entry per startup command: the session the command left and the value it returned.
  \<open>sessionBefore st runs i\<close> is the session in which command \<open>i\<close> is dispatched: the
  initial session for the first command, otherwise the session left by command
  \<open>i - 1\<close>. At \<open>i\<close> the length of the list it is the session after the last command.
\<close>

definition sessionBefore :: "session \<Rightarrow> (session \<times> bool) list \<Rightarrow> nat \<Rightarrow> session" where
  "sessionBefore st runs i = (if i = 0 then st else fst (runs ! (i - 1)))"

subsection \<open>Properties of findAndRemoveOne\<close>

lemma std_find_le: "std_find xs a \<le> length xs"
  by (induction xs) auto

lemma std_find_end: "std_find xs a = length xs \<longleftrightarrow> a \<notin> set xs"
proof (induction xs)
  case Nil
  show ?case by simp
next
  case (Cons x xs)
  have "std_find xs a \<le> length xs" by (rule std_find_le)
  with Cons show ?case by auto
qed

lemma std_find_first:
  "a \<notin> set ys \<Longrightarrow> std_find (ys @ a # zs) a = length ys"
  by (induction ys) auto

lemma erase_middle: "erase (ys @ a # zs) (length ys) = ys @ zs"
  by (simp add: erase_def)

lemma findAndRemoveOne_absent:
  "a \<notin> set xs \<Longrightarrow> findAndRemoveOne xs a = (xs, False)"
  by (simp add: findAndRemoveOne_def std_find_end)

lemma findAndRemoveOne_first:
  "a \<notin> set ys \<Longrightarrow> findAndRemoveOne (ys @ a # zs) a = (ys @ zs, True)"
  by (simp add: findAndRemoveOne_def std_find_first erase_middle)

lemma findAndRemoveOne_remove1:
  "findAndRemoveOne xs a = (remove1 a xs, a \<in> set xs)"
proof (cases "a \<in> set xs")
  case False
  then show ?thesis by (simp add: findAndRemoveOne_absent remove1_idem)
next
  case True
  then obtain ys zs where split: "xs = ys @ a # zs" "a \<notin> set ys"
    by (auto dest: split_list_first)
  then show ?thesis
    by (simp add: findAndRemoveOne_first remove1_append)
qed

text \<open>
  Claim C8. Flag extraction finds the first exact match of the flag name. If there is one, the
  sequence is \<open>ys @ flag # zs\<close> with no match in \<open>ys\<close>, exactly that occurrence is
  removed, the remaining tokens \<open>ys @ zs\<close> keep their order, and the result is true. If
  there is none, the result is false and the sequence is returned unchanged.
\<close>

theorem findAndRemoveOne_spec:
  "(flagName \<in> set tokens \<longrightarrow>
      (\<exists>ys zs. tokens = ys @ flagName # zs \<and> flagName \<notin> set ys \<and>
         findAndRemoveOne tokens flagName = (ys @ zs, True))) \<and>
   (flagName \<notin> set tokens \<longrightarrow> findAndRemoveOne tokens flagName = (tokens, False))"
proof (intro conjI impI)
  assume "flagName \<in> set tokens"
  then obtain ys zs where parts: "tokens = ys @ flagName # zs" "flagName \<notin> set ys"
    by (auto dest: split_list_first)
  from parts have "findAndRemoveOne tokens flagName = (ys @ zs, True)"
    by (simp add: findAndRemoveOne_first)
  with parts show "\<exists>ys zs. tokens = ys @ flagName # zs \<and> flagName \<notin> set ys \<and>
      findAndRemoveOne tokens flagName = (ys @ zs, True)"
    by (intro exI conjI)
next
  assume "flagName \<notin> set tokens"
  then show "findAndRemoveOne tokens flagName = (tokens, False)"
    by (rule findAndRemoveOne_absent)
qed

theorem findAndRemoveOne_spec_witness:
  "findAndRemoveOne [''dis'', ''-offsets'', ''7'', ''-offsets''] ''-offsets''
     = ([''dis'', ''7'', ''-offsets''], True) \<and>
   findAndRemoveOne [''dis'', ''7''] ''-offsets'' = ([''dis'', ''7''], False)"
  using findAndRemoveOne_spec [of "''-offsets''" "[''dis'', ''-offsets'', ''7'', ''-offsets'']"]
    findAndRemoveOne_spec [of "''-offsets''" "[''dis'', ''7'']"]
  by (simp add: findAndRemoveOne_def erase_def)

subsection \<open>Basic facts about sessions and the tokenizer\<close>

lemma StringRef_split_nonempty: "StringRef_split S c \<noteq> []"
  by (subst StringRef_split.simps) (simp split: option.split)

lemma emit_options [simp]: "options (emit st es) = options st"
  by (simp add: emit_def)

lemmas session_ops = service_def os_write_def disassemble_def disassembleFunction_def
      DisassemblerOptionsHolder_def DisassemblerOptionsHolder_destroy_def setOptions_def getOptions_def

lemma functionBranch_options:
  "functionBranch st command toks = Inr (st', fl) \<Longrightarrow> options st' = options st"
  by (auto simp: functionBranch_def session_ops split: if_splits sum.splits option.splits)

lemma instructionBranch_options:
  "instructionBranch st command toks = Inr (st', fl) \<Longrightarrow> options st' = options st"
  by (auto simp: instructionBranch_def session_ops split: if_splits)

lemma disassembleBranch_options:
  "disassembleBranch st command toks = Inr (st', fl) \<Longrightarrow> options st' = options st"
  by (auto simp: disassembleBranch_def session_ops Let_def emit_def split: if_splits sum.splits option.splits prod.splits)

lemma stringBranch_options:
  "stringBranch st toks = Inr (st', fl) \<Longrightarrow> options st' = options st"
  by (auto simp: stringBranch_def session_ops split: if_splits sum.splits option.splits)

lemma filenameBranch_options:
  "filenameBranch st toks = Inr (st', fl) \<Longrightarrow> options st' = options st"
  by (auto simp: filenameBranch_def session_ops split: if_splits sum.splits option.splits)

lemma offsetBranch_options:
  "offsetBranch st toks = Inr (st', fl) \<Longrightarrow> options st' = options st"
  by (auto simp: offsetBranch_def session_ops Let_def split: if_splits sum.splits option.splits prod.splits)

lemma atVirtualBranch_options:
  "atVirtualBranch analyzer st command toks = Inr (st', fl) \<Longrightarrow> options st' = options st"
  by (auto simp: atVirtualBranch_def session_ops Let_def split: if_splits sum.splits option.splits prod.splits)

lemma helpBranch_options:
  "helpBranch st toks = Inr (st', fl) \<Longrightarrow> options st' = options st"
  by (auto simp: helpBranch_def session_ops split: if_splits sum.splits option.splits)

lemmas branch_options = functionBranch_options instructionBranch_options disassembleBranch_options
  stringBranch_options filenameBranch_options offsetBranch_options atVirtualBranch_options helpBranch_options

lemma commandChain_options:
  "commandChain analyzer st command commandTokens = Inr (st', fl) \<Longrightarrow> options st' = options st"
  unfolding commandChain_def
  by (simp add: service_def split: if_splits; (elim conjE)?; (erule branch_options | (clarsimp)))

lemma executeTokens_options:
  "executeTokens analyzer st toks = Inr (st', r) \<Longrightarrow> options st' = options st"
  unfolding executeTokens_def
  by (auto simp: os_write_def dest: commandChain_options split: if_splits sum.splits flow.splits prod.splits)


lemma emit_emit: "emit (emit st es) fs = emit st (es @ fs)"
  by (simp add: emit_def)

lemma emit_Nil: "emit st [] = st"
  by (simp add: emit_def)

lemma split_no_separator:
  "Separator \<notin> set S \<Longrightarrow> StringRef_find S Separator = None"
  by (induction S) auto

lemma split_single: "Separator \<notin> set S \<Longrightarrow> StringRef_split S Separator = [S]"
  by (subst StringRef_split.simps) (simp add: split_no_separator)

lemma executeTokens_quit: "executeTokens analyzer st (''quit'' # rest) = Inr (st, True)"
  by (simp add: executeTokens_def tokenAt_def commandChain_def)

text \<open>
  Claim C9. A token sequence whose first token is \<^verbatim>\<open>quit\<close> makes the dispatcher return
  true, whatever tokens follow and in whatever session; the session is left as it was.
  The same holds for a line whose tokens start with \<^verbatim>\<open>quit\<close>.
\<close>

theorem quit_ignores_arguments:
  "executeTokens analyzer st (''quit'' # rest) = Inr (st, True) \<and>
   (StringRef_split line CHR '' '' = ''quit'' # rest \<longrightarrow>
      executeCommand analyzer st line = Inr (st, True))"
  by (simp add: executeCommand_def executeTokens_quit)

theorem quit_ignores_arguments_witness:
  "StringRef_split ''quit now please'' CHR '' '' = [''quit'', ''now'', ''please''] \<and>
   executeCommand noFunctions (initialSession True) ''quit now please''
     = Inr (initialSession True, True)"
proof -
  have s: "StringRef_split ''quit now please'' CHR '' '' = ''quit'' # [''now'', ''please'']"
    by (simp add: StringRef_split.simps)
  from quit_ignores_arguments [of noFunctions "initialSession True" "[''now'', ''please'']"
      "''quit now please''"] s
  show ?thesis by simp
qed

text \<open>
  Claim C10. When the first token is \<^verbatim>\<open>io\<close>, \<^verbatim>\<open>summary\<close>, \<^verbatim>\<open>sum\<close>, \<^verbatim>\<open>block\<close>,
  \<^verbatim>\<open>epilogue\<close> or \<^verbatim>\<open>epi\<close>, the dispatcher calls the matching dump operation, writes the
  separator and returns false; the tokens after the first play no part in the result.
\<close>

theorem dump_commands_ignore_arguments:
  "executeTokens analyzer st (''io'' # rest) = Inr (emit st [Call DumpIO, Os ''\<newline>''], False) \<and>
   executeTokens analyzer st (''summary'' # rest) = Inr (emit st [Call DumpSummary, Os ''\<newline>''], False) \<and>
   executeTokens analyzer st (''sum'' # rest) = Inr (emit st [Call DumpSummary, Os ''\<newline>''], False) \<and>
   executeTokens analyzer st (''block'' # rest)
     = Inr (emit st [Call DumpBasicBlockStats, Os ''\<newline>''], False) \<and>
   executeTokens analyzer st (''epilogue'' # rest)
     = Inr (emit st [Call DumpEpilogue, Os ''\<newline>''], False) \<and>
   executeTokens analyzer st (''epi'' # rest) = Inr (emit st [Call DumpEpilogue, Os ''\<newline>''], False) \<and>
   (StringRef_split line CHR '' '' = command # rest \<longrightarrow>
      executeCommand analyzer st line = executeTokens analyzer st (command # rest))"
  by (simp add: executeCommand_def executeTokens_def tokenAt_def commandChain_def
      service_def os_write_def emit_emit)

theorem dump_commands_ignore_arguments_witness:
  "executeCommand noFunctions (initialSession True) ''summary 1 -json x''
     = Inr (emit (initialSession True) [Call DumpSummary, Os ''\<newline>''], False)"
proof -
  have s: "StringRef_split ''summary 1 -json x'' CHR '' '' = ''summary'' # [''1'', ''-json'', ''x'']"
    by (simp add: StringRef_split.simps)
  from dump_commands_ignore_arguments [of noFunctions "initialSession True"
      "[''1'', ''-json'', ''x'']" "''summary 1 -json x''" "''summary''"] s
  show ?thesis by simp
qed

lemma printHelp_None_nonempty: "outs_text (printHelp None) \<noteq> []"
  by (simp add: printHelp_def topLevelHelpText_def)

text \<open>
  Claim C4 (the code does otherwise). The tokenizer turns the empty line into the
  sequence of one empty token, and never returns the empty sequence, so the test
  commented "Ignore empty input" is never true. The empty line is dispatched as the
  unknown command with the empty name, and \<^verbatim>\<open>printHelp\<close> answers an empty name with the
  top-level help: the line is not ignored, although false is returned.
\<close>

theorem empty_line_prints_help:
  "StringRef_split [] CHR '' '' = [[]] \<and>
   StringRef_split line CHR '' '' \<noteq> [] \<and>
   executeTokens analyzer st [] = Inr (st, False) \<and>
   executeCommand analyzer st [] = Inr (emit st (printHelp None), False) \<and>
   outs_text (printHelp None) \<noteq> []"
proof -
  have "printHelp (Some []) = printHelp None"
    by (simp add: printHelp_def)
  then show ?thesis
    by (simp add: executeCommand_def split_single executeTokens_def tokenAt_def commandChain_def
        printHelp_None_nonempty StringRef_split_nonempty)
qed

lemma run_disassemble_offsets:
  "executeCommand analyzer st ''disassemble -offsets''
     = Inr (emit st [Call (Disassemble (options st \<union> {IncludeVirtualOffsets})), Os ''\<newline>''], False)"
  by (simp add: executeCommand_def StringRef_split.simps executeTokens_def tokenAt_def
      commandChain_def disassembleBranch_def findAndRemoveOne_def erase_def session_ops emit_def)

lemma run_disassemble:
  "executeCommand analyzer st ''disassemble''
     = Inr (emit st [Call (Disassemble (options st)), Os ''\<newline>''], False)"
  by (simp add: executeCommand_def StringRef_split.simps executeTokens_def tokenAt_def
      commandChain_def disassembleBranch_def findAndRemoveOne_def erase_def session_ops emit_def)

text \<open>
  Claim C1. Whatever the line, when the command completes the disassembler's option
  set is the one it was before the command. In particular \<^verbatim>\<open>disassemble -offsets\<close>
  followed by \<^verbatim>\<open>disassemble\<close> leaves the option set as it was before the first of them.
\<close>

theorem executeCommand_restores_options:
  "(executeCommand analyzer st line = Inr (st', r) \<longrightarrow> options st' = options st) \<and>
   (\<exists>st1 st2. executeCommand analyzer st ''disassemble -offsets'' = Inr (st1, False) \<and>
      executeCommand analyzer st1 ''disassemble'' = Inr (st2, False) \<and>
      options st1 = options st \<and> options st2 = options st)"
proof (intro conjI impI)
  assume "executeCommand analyzer st line = Inr (st', r)"
  then show "options st' = options st"
    unfolding executeCommand_def by (rule executeTokens_options)
next
  let ?st1 = "emit st [Call (Disassemble (options st \<union> {IncludeVirtualOffsets})), Os ''\<newline>'']"
  let ?st2 = "emit ?st1 [Call (Disassemble (options ?st1)), Os ''\<newline>'']"
  have "executeCommand analyzer st ''disassemble -offsets'' = Inr (?st1, False)"
    by (rule run_disassemble_offsets)
  moreover have "executeCommand analyzer ?st1 ''disassemble'' = Inr (?st2, False)"
    by (rule run_disassemble)
  moreover have "options ?st1 = options st" "options ?st2 = options st"
    by simp_all
  ultimately show "\<exists>st1 st2. executeCommand analyzer st ''disassemble -offsets'' = Inr (st1, False) \<and>
      executeCommand analyzer st1 ''disassemble'' = Inr (st2, False) \<and>
      options st1 = options st \<and> options st2 = options st"
    by blast
qed

theorem executeCommand_restores_options_witness:
  "executeCommand noFunctions (initialSession True) ''dis -offsets abc''
     = Inr (emit (initialSession True) [Os ''Error: cannot parse func_id as integer.\<newline>''], False) \<and>
   options (emit (initialSession True) [Os ''Error: cannot parse func_id as integer.\<newline>''])
     = options (initialSession True)"
proof -
  have run: "executeCommand noFunctions (initialSession True) ''dis -offsets abc''
     = Inr (emit (initialSession True) [Os ''Error: cannot parse func_id as integer.\<newline>''], False)"
    by (simp add: executeCommand_def StringRef_split.simps executeTokens_def tokenAt_def
      commandChain_def disassembleBranch_def findAndRemoveOne_def erase_def session_ops emit_def
      getAsInteger_def getAsUnsignedInteger_def consumeUnsignedInteger_def GetAutoSenseRadix_def
      startswith_def CharVal_def isDigit_def initialSession_def)
  from executeCommand_restores_options [of noFunctions "initialSession True" "''dis -offsets abc''"
      "emit (initialSession True) [Os ''Error: cannot parse func_id as integer.\<newline>'']" False] run
  show ?thesis by blast
qed

subsection \<open>The help registry\<close>

lemma help_keys:
  "map fst commandToHelpText =
     [''function'', ''instruction'', ''disassemble'', ''summary'', ''io'', ''block'',
      ''at-virtual'', ''help'']"
  by (simp add: commandToHelpText_def)

lemma help_key_nonempty:
  assumes "map_of commandToHelpText name = Some text"
  shows "name \<noteq> []"
proof -
  from assms have "name \<in> set (map fst commandToHelpText)"
    by (metis map_of_SomeD set_zip_leftD zip_map_fst_snd)
  then show ?thesis
    unfolding help_keys by auto
qed

lemma help_no_entry:
  "map_of commandToHelpText ''string'' = None"
  "map_of commandToHelpText ''filename'' = None"
  "map_of commandToHelpText ''epilogue'' = None"
  by (simp_all add: commandToHelpText_def)

lemma executeTokens_help:
  "executeTokens analyzer st [''help'', name] = Inr (emit st (printHelp (Some name)), False)"
  "executeTokens analyzer st [''h'', name] = Inr (emit st (printHelp (Some name)), False)"
  by (simp_all add: executeTokens_def tokenAt_def commandChain_def helpBranch_def)

text \<open>
  Claim C5, amended. A name with an entry in the help table gets that entry's text,
  verbatim; the names with an entry are \<^verbatim>\<open>function\<close>, \<^verbatim>\<open>instruction\<close>, \<^verbatim>\<open>disassemble\<close>,
  \<^verbatim>\<open>summary\<close>, \<^verbatim>\<open>io\<close>, \<^verbatim>\<open>block\<close>, \<^verbatim>\<open>at-virtual\<close> and \<^verbatim>\<open>help\<close>. A non-empty name without
  an entry, as \<^verbatim>\<open>string\<close>, \<^verbatim>\<open>filename\<close> and \<^verbatim>\<open>epilogue\<close> are, gets "Invalid command: "
  followed by the name and a newline. The command \<^verbatim>\<open>help name\<close> prints exactly that.
\<close>

theorem printHelp_entry_or_invalid:
  "(map_of commandToHelpText name = Some text \<longrightarrow> printHelp (Some name) = [Outs text]) \<and>
   (name \<noteq> [] \<and> map_of commandToHelpText name = None \<longrightarrow>
      printHelp (Some name) = [Outs ''Invalid command: '', Outs name, Outs ''\<newline>''] \<and>
      outs_text (printHelp (Some name)) = ''Invalid command: '' @ name @ ''\<newline>'') \<and>
   dom (map_of commandToHelpText) =
     {''function'', ''instruction'', ''disassemble'', ''summary'', ''io'', ''block'',
      ''at-virtual'', ''help''} \<and>
   map_of commandToHelpText ''string'' = None \<and>
   map_of commandToHelpText ''filename'' = None \<and>
   map_of commandToHelpText ''epilogue'' = None \<and>
   executeTokens analyzer st [''help'', name] = Inr (emit st (printHelp (Some name)), False)"
proof (intro conjI impI)
  assume entry: "map_of commandToHelpText name = Some text"
  then have "name \<noteq> []" by (rule help_key_nonempty)
  with entry show "printHelp (Some name) = [Outs text]"
    by (simp add: printHelp_def)
next
  assume "name \<noteq> [] \<and> map_of commandToHelpText name = None"
  then show "printHelp (Some name) = [Outs ''Invalid command: '', Outs name, Outs ''\<newline>'']"
    by (simp add: printHelp_def)
  then show "outs_text (printHelp (Some name)) = ''Invalid command: '' @ name @ ''\<newline>''"
    by simp
next
  have "dom (map_of commandToHelpText) = set (map fst commandToHelpText)"
    by (simp add: dom_map_of_conv_image_fst)
  then show "dom (map_of commandToHelpText) =
     {''function'', ''instruction'', ''disassemble'', ''summary'', ''io'', ''block'',
      ''at-virtual'', ''help''}"
    unfolding help_keys by simp
qed (simp_all add: help_no_entry executeTokens_help)

theorem printHelp_entry_or_invalid_witness:
  "printHelp (Some ''summary'')
     = [Outs (''Display overall summary information.\<newline>\<newline>'' @ ''USAGE: summary\<newline>'')] \<and>
   outs_text (printHelp (Some ''epilogue'')) = ''Invalid command: epilogue\<newline>''"
proof -
  have a: "map_of commandToHelpText ''summary''
      = Some (''Display overall summary information.\<newline>\<newline>'' @ ''USAGE: summary\<newline>'')"
    by (simp add: commandToHelpText_def)
  have b: "''epilogue'' \<noteq> [] \<and> map_of commandToHelpText ''epilogue'' = None"
    by (simp add: commandToHelpText_def)
  from printHelp_entry_or_invalid [of "''summary''"
      "''Display overall summary information.\<newline>\<newline>'' @ ''USAGE: summary\<newline>''"] a
    printHelp_entry_or_invalid [of "''epilogue''"] b
  show ?thesis by simp
qed

text \<open>
  Claim C5 as stated fails for \<^verbatim>\<open>io\<close>: the table has an entry for it, and help for
  \<^verbatim>\<open>io\<close> prints that entry, not the fallback.
\<close>

theorem help_io_is_registered_counterexample:
  "printHelp (Some ''io'')
     = [Outs (''Visualize function page I/O access working set'' @
              ''in basic block profile trace.\<newline>\<newline>'' @ ''USAGE: io\<newline>'')] \<and>
   outs_text (printHelp (Some ''io'')) \<noteq> ''Invalid command: io\<newline>''"
  by (simp add: printHelp_def commandToHelpText_def)

lemma sessionBefore_Cons:
  "sessionBefore st (r # rs) (Suc j) = sessionBefore (fst r) rs j"
  by (cases j) (simp_all add: sessionBefore_def)

lemma startupLoop_runs:
  assumes "length runs = length cmds"
    and "\<forall>i < length cmds.
           executeCommand analyzer (sessionBefore st runs i) (cmds ! i) = Inr (runs ! i)"
  shows "startupLoop analyzer st t cmds
     = Inr (sessionBefore st runs (length cmds), t \<or> True \<in> set (map snd runs))"
  using assms
proof (induction cmds arbitrary: st t runs)
  case Nil
  then show ?case by (simp add: sessionBefore_def)
next
  case (Cons c cs)
  from Cons.prems(1) obtain r rs where runs: "runs = r # rs" and len: "length rs = length cs"
    by (cases runs) auto
  from Cons.prems(2) have "executeCommand analyzer (sessionBefore st runs 0) ((c # cs) ! 0)
      = Inr (runs ! 0)"
    by blast
  then have first: "executeCommand analyzer st c = Inr r"
    by (simp add: runs sessionBefore_def)
  have rest: "\<forall>i < length cs.
      executeCommand analyzer (sessionBefore (fst r) rs i) (cs ! i) = Inr (rs ! i)"
  proof (intro allI impI)
    fix i assume "i < length cs"
    then have "Suc i < length (c # cs)" by simp
    with Cons.prems(2)
    have "executeCommand analyzer (sessionBefore st runs (Suc i)) ((c # cs) ! Suc i)
        = Inr (runs ! Suc i)"
      by blast
    then show "executeCommand analyzer (sessionBefore (fst r) rs i) (cs ! i) = Inr (rs ! i)"
      by (simp add: runs sessionBefore_Cons)
  qed
  have "startupLoop analyzer (fst r) (if snd r then True else t) cs
      = Inr (sessionBefore (fst r) rs (length cs),
             (if snd r then True else t) \<or> True \<in> set (map snd rs))"
    by (rule Cons.IH [OF len rest])
  with first show ?case
    by (cases r) (auto simp add: runs sessionBefore_Cons)
qed

text \<open>
  Claim C2, amended. Take any run of the startup list in which every command of the
  list is dispatched, in order, each in the session left by the one before it, and in
  which some command returns true. Then the startup loop ends in the session left by
  the last command of the list, so the commands after the one that returned true have
  been dispatched too; and the whole session ends there: the interactive loop writes no
  prompt and reads no line, the input is left as it was.
\<close>

theorem startup_runs_whole_list_then_terminates:
  assumes "length runs = length startupCommands"
    and "\<forall>i < length startupCommands.
           executeCommand analyzer (sessionBefore (initialSession p) runs i) (startupCommands ! i)
             = Inr (runs ! i)"
    and "True \<in> set (map snd runs)"
  shows "startupLoop analyzer (initialSession p) False startupCommands
           = Inr (sessionBefore (initialSession p) runs (length startupCommands), True) \<and>
         enterCommandLoop analyzer p startupCommands input
           = Inr (sessionBefore (initialSession p) runs (length startupCommands), input)"
proof -
  from startupLoop_runs [OF assms(1) assms(2), of False] assms(3)
  have "startupLoop analyzer (initialSession p) False startupCommands
      = Inr (sessionBefore (initialSession p) runs (length startupCommands), True)"
    by simp
  then show ?thesis
    by (simp add: enterCommandLoop_def)
qed

lemma run_summary:
  "executeCommand analyzer st ''summary'' = Inr (emit st [Call DumpSummary, Os ''\<newline>''], False)"
  by (simp add: executeCommand_def split_single executeTokens_def tokenAt_def commandChain_def
      service_def os_write_def emit_emit)

lemma run_io:
  "executeCommand analyzer st ''io'' = Inr (emit st [Call DumpIO, Os ''\<newline>''], False)"
  by (simp add: executeCommand_def split_single executeTokens_def tokenAt_def commandChain_def
      service_def os_write_def emit_emit)

lemma run_quit: "executeCommand analyzer st ''quit'' = Inr (st, True)"
  by (simp add: executeCommand_def split_single executeTokens_quit)

lemma emit_changes: "es \<noteq> [] \<Longrightarrow> emit st es \<noteq> st"
proof
  assume "es \<noteq> []" and "emit st es = st"
  then have "trace (emit st es) = trace st" by simp
  then have "trace st @ es = trace st" by (simp add: emit_def)
  with \<open>es \<noteq> []\<close> show False by simp
qed

theorem startup_runs_whole_list_then_terminates_witness:
  "enterCommandLoop noFunctions True [''quit'', ''summary'', ''io''] [''block'']
     = Inr (emit (initialSession True)
              [Call DumpSummary, Os ''\<newline>'', Call DumpIO, Os ''\<newline>''], [''block''])"
proof -
  let ?s0 = "initialSession True"
  let ?s2 = "emit ?s0 [Call DumpSummary, Os ''\<newline>'']"
  let ?s3 = "emit ?s0 [Call DumpSummary, Os ''\<newline>'', Call DumpIO, Os ''\<newline>'']"
  let ?cmds = "[''quit'', ''summary'', ''io'']"
  let ?runs = "[(?s0, True), (?s2, False), (?s3, False)]"
  have len: "length ?runs = length ?cmds" by simp
  have each: "\<forall>i < length ?cmds.
      executeCommand noFunctions (sessionBefore ?s0 ?runs i) (?cmds ! i) = Inr (?runs ! i)"
  proof (intro allI impI)
    fix i assume "i < length ?cmds"
    then have "i = 0 \<or> i = 1 \<or> i = 2" by auto
    then show "executeCommand noFunctions (sessionBefore ?s0 ?runs i) (?cmds ! i) = Inr (?runs ! i)"
      by (elim disjE; simp add: sessionBefore_def run_quit run_summary run_io emit_emit)
  qed
  have some: "True \<in> set (map snd ?runs)" by simp
  from startup_runs_whole_list_then_terminates [OF len each some, of "[''block'']"]
  show ?thesis by (simp add: sessionBefore_def)
qed

text \<open>
  Claim C2 as stated fails for the startup list \<^verbatim>\<open>quit\<close>, \<^verbatim>\<open>summary\<close>: the summary is
  dumped after \<^verbatim>\<open>quit\<close> has asked for termination, whereas a startup phase that stops
  at the first request would leave the session untouched.
\<close>

theorem startup_stops_at_quit_counterexample:
  "startupLoop noFunctions (initialSession True) False [''quit'', ''summary'']
     = Inr (emit (initialSession True) [Call DumpSummary, Os ''\<newline>''], True) \<and>
   startupStopAtTerminate noFunctions (initialSession True) [''quit'', ''summary'']
     = Inr (initialSession True, True) \<and>
   startupLoop noFunctions (initialSession True) False [''quit'', ''summary'']
     \<noteq> startupStopAtTerminate noFunctions (initialSession True) [''quit'', ''summary'']"
  by (simp add: run_quit run_summary emit_changes)

lemma executeTokens_chain:
  "executeTokens analyzer st (command # rest) =
     (case commandChain analyzer st command (command # rest) of
        Inl e \<Rightarrow> Inl e
      | Inr (st', Return terminate) \<Rightarrow> Inr (st', terminate)
      | Inr (st', EndOfChain) \<Rightarrow> Inr (os_write st' ''\<newline>'', False))"
  by (simp add: executeTokens_def tokenAt_def)

lemma remove_flag:
  "command \<noteq> flag \<Longrightarrow>
     findAndRemoveOne (command # rest) flag = (command # remove1 flag rest, flag \<in> set rest)"
  by (auto simp add: findAndRemoveOne_remove1)

subsection \<open>Commands with a numeric argument\<close>

lemma function_numeric:
  assumes "command = ''function'' \<or> command = ''fun''"
  shows "executeTokens analyzer st [command, tok] =
        (case getAsInteger tok 0 of
           None \<Rightarrow> Inr (os_write st (parseErrorMessage ''func_id''), False)
         | Some funcId \<Rightarrow>
             Inr (emit st [Call (DumpFunctionBasicBlockStat funcId), Os ''\<newline>''], False))"
  using assms
  by (elim disjE; simp add: executeTokens_chain commandChain_def functionBranch_def tokenAt_def
        parseErrorMessage_def service_def os_write_def emit_emit split: option.split)

lemma string_numeric:
  assumes "command = ''string'' \<or> command = ''str''"
  shows "executeTokens analyzer st (command # tok # rest) =
        (case getAsInteger tok 0 of
           None \<Rightarrow> Inr (os_write st (parseErrorMessage ''string_id''), False)
         | Some stringId \<Rightarrow> Inr (emit st [Call (DumpString stringId), Os ''\<newline>''], False))"
  using assms
  by (elim disjE; simp add: executeTokens_chain commandChain_def stringBranch_def tokenAt_def
        parseErrorMessage_def service_def os_write_def emit_emit split: option.split)

lemma filename_numeric:
  "executeTokens analyzer st (''filename'' # tok # rest) =
        (case getAsInteger tok 0 of
           None \<Rightarrow> Inr (os_write st (parseErrorMessage ''filename_id''), False)
         | Some filenameId \<Rightarrow> Inr (emit st [Call (DumpFileName filenameId), Os ''\<newline>''], False))"
  by (simp add: executeTokens_chain commandChain_def filenameBranch_def tokenAt_def
        parseErrorMessage_def service_def os_write_def emit_emit split: option.split)


lemma offset_numeric:
  assumes cmd: "command = ''offset'' \<or> command = ''offsets''"
    and arg: "remove1 ''-json'' rest = [tok]"
  shows "executeTokens analyzer st (command # rest) =
        (case getAsInteger tok 0 of
           None \<Rightarrow> Inr (os_write st (parseErrorMessage ''func_id''), False)
         | Some funcId \<Rightarrow>
             Inr (emit st [Call (DumpFunctionOffsets funcId (''-json'' \<in> set rest)), Os ''\<newline>''],
                  False))"
proof -
  from cmd have ne: "command \<noteq> ''-json''" by auto
  have flag: "findAndRemoveOne (command # rest) ''-json'' = ([command, tok], ''-json'' \<in> set rest)"
    using remove_flag [OF ne, of rest] arg by simp
  have branch: "offsetBranch st (command # rest) =
      (case getAsInteger tok 0 of
         None \<Rightarrow> Inr (os_write st ''Error: cannot parse func_id as integer.\<newline>'', Return False)
       | Some funcId \<Rightarrow>
           Inr (service st (DumpFunctionOffsets funcId (''-json'' \<in> set rest)), EndOfChain))"
    by (simp add: offsetBranch_def flag tokenAt_def)
  from cmd have chain:
    "commandChain analyzer st command (command # rest) = offsetBranch st (command # rest)"
    by (elim disjE; simp add: commandChain_def)
  show ?thesis
    by (simp add: executeTokens_chain chain branch parseErrorMessage_def service_def os_write_def
        emit_emit split: option.split)
qed

lemma atVirtual_numeric:
  assumes cmd: "command = ''at_virtual'' \<or> command = ''at-virtual''"
    and arg: "remove1 ''-json'' rest = [tok]"
  shows "executeTokens analyzer st (command # rest) =
        (case getAsInteger tok 0 of
           None \<Rightarrow> Inr (os_write st (parseErrorMessage ''virtualOffset''), False)
         | Some virtualOffset \<Rightarrow>
             (case analyzer virtualOffset of
                Some funcId \<Rightarrow>
                  Inr (emit st [Call (DumpFunctionOffsets funcId (''-json'' \<in> set rest)),
                                Os ''\<newline>''], False)
              | None \<Rightarrow>
                  Inr (emit st [Os ''Virtual offset '', OsNum virtualOffset,
                                Os '' is invalid.\<newline>'', Os ''\<newline>''], False)))"
proof -
  from cmd have ne: "command \<noteq> ''-json''" by auto
  have flag: "findAndRemoveOne (command # rest) ''-json'' = ([command, tok], ''-json'' \<in> set rest)"
    using remove_flag [OF ne, of rest] arg by simp
  have branch: "atVirtualBranch analyzer st command (command # rest) =
      (case getAsInteger tok 0 of
         None \<Rightarrow> Inr (os_write st ''Error: cannot parse virtualOffset as integer.\<newline>'', Return False)
       | Some virtualOffset \<Rightarrow>
           (case analyzer virtualOffset of
              Some funcId \<Rightarrow>
                Inr (service st (DumpFunctionOffsets funcId (''-json'' \<in> set rest)), EndOfChain)
            | None \<Rightarrow>
                Inr (emit st [Os ''Virtual offset '', OsNum virtualOffset,
                              Os '' is invalid.\<newline>''], EndOfChain)))"
    by (simp add: atVirtualBranch_def flag tokenAt_def)
  from cmd have chain:
    "commandChain analyzer st command (command # rest)
       = atVirtualBranch analyzer st command (command # rest)"
    by (elim disjE; simp add: commandChain_def)
  show ?thesis
    by (simp add: executeTokens_chain chain branch parseErrorMessage_def service_def os_write_def
        emit_emit split: option.split)
qed

lemma disassemble_numeric:
  assumes cmd: "command = ''disassemble'' \<or> command = ''dis''"
    and arg: "remove1 ''-offsets'' rest = [tok]"
  shows "executeTokens analyzer st (command # rest) =
        (case getAsInteger tok 0 of
           None \<Rightarrow> Inr (os_write st (parseErrorMessage ''func_id''), False)
         | Some funcId \<Rightarrow>
             Inr (emit st [Call (DisassembleFunction funcId
                    (options st \<union> (if ''-offsets'' \<in> set rest then {IncludeVirtualOffsets} else {}))),
                  Os ''\<newline>''], False))"
proof -
  let ?new = "options st \<union> (if ''-offsets'' \<in> set rest then {IncludeVirtualOffsets} else {})"
  from cmd have ne: "command \<noteq> ''-offsets''" by auto
  have flag: "findAndRemoveOne (command # rest) ''-offsets''
      = ([command, tok], ''-offsets'' \<in> set rest)"
    using remove_flag [OF ne, of rest] arg by simp
  have branch: "disassembleBranch st command (command # rest) =
      (case getAsInteger tok 0 of
         None \<Rightarrow> Inr (os_write st ''Error: cannot parse func_id as integer.\<newline>'', Return False)
       | Some funcId \<Rightarrow> Inr (emit st [Call (DisassembleFunction funcId ?new)], EndOfChain))"
    unfolding disassembleBranch_def flag
    by (simp add: tokenAt_def DisassemblerOptionsHolder_def DisassemblerOptionsHolder_destroy_def
        disassembleFunction_def service_def os_write_def getOptions_def setOptions_def emit_def
        split: option.split)
  from cmd have chain:
    "commandChain analyzer st command (command # rest)
       = disassembleBranch st command (command # rest)"
    by (elim disjE; simp add: commandChain_def)
  show ?thesis
    by (simp add: executeTokens_chain chain branch parseErrorMessage_def os_write_def
        emit_emit split: option.split)
qed

subsection \<open>The outcome of every command, family by family\<close>

lemma emit_inject [simp]: "emit st es = emit st fs \<longleftrightarrow> es = fs"
proof
  assume "emit st es = emit st fs"
  then have "trace (emit st es) = trace (emit st fs)" by simp
  then show "es = fs" by (simp add: emit_def)
qed simp

lemma printHelp_no_Os: "Os s \<notin> set (printHelp c)"
  by (auto simp: printHelp_def split: option.splits)

lemma function_all:
  assumes "command = ''function'' \<or> command = ''fun''"
  shows "executeTokens analyzer st [command]
     = Inr (emit st [Call DumpFunctionStats, Os ''\<newline>''], False)"
  using assms
  by (elim disjE; simp add: executeTokens_chain commandChain_def functionBranch_def
      service_def os_write_def emit_emit)

lemma function_arity:
  assumes "command = ''function'' \<or> command = ''fun''"
  shows "executeTokens analyzer st (command # a # b # others)
     = Inr (emit st (printHelp (Some command)), False)"
  using assms
  by (elim disjE; simp add: executeTokens_chain commandChain_def functionBranch_def)

lemma instruction_all:
  assumes "command = ''instruction'' \<or> command = ''inst''"
  shows "executeTokens analyzer st [command]
     = Inr (emit st [Call DumpInstructionStats, Os ''\<newline>''], False)"
  using assms
  by (elim disjE; simp add: executeTokens_chain commandChain_def instructionBranch_def
      service_def os_write_def emit_emit)

lemma instruction_arity:
  assumes "command = ''instruction'' \<or> command = ''inst''"
  shows "executeTokens analyzer st (command # a # others)
     = Inr (emit st (printHelp (Some command)), False)"
  using assms
  by (elim disjE; simp add: executeTokens_chain commandChain_def instructionBranch_def)

lemma disassemble_all:
  assumes cmd: "command = ''disassemble'' \<or> command = ''dis''"
    and arg: "remove1 ''-offsets'' args = []"
  shows "executeTokens analyzer st (command # args) =
     Inr (emit st [Call (Disassemble
            (options st \<union> (if ''-offsets'' \<in> set args then {IncludeVirtualOffsets} else {}))),
          Os ''\<newline>''], False)"
proof -
  let ?new = "options st \<union> (if ''-offsets'' \<in> set args then {IncludeVirtualOffsets} else {})"
  from cmd have ne: "command \<noteq> ''-offsets''" by auto
  have flag: "findAndRemoveOne (command # args) ''-offsets''
      = ([command], ''-offsets'' \<in> set args)"
    using remove_flag [OF ne, of args] arg by simp
  have branch: "disassembleBranch st command (command # args)
      = Inr (emit st [Call (Disassemble ?new)], EndOfChain)"
    unfolding disassembleBranch_def flag
    by (simp add: DisassemblerOptionsHolder_def DisassemblerOptionsHolder_destroy_def
        disassemble_def service_def getOptions_def setOptions_def emit_def)
  from cmd have chain:
    "commandChain analyzer st command (command # args)
       = disassembleBranch st command (command # args)"
    by (elim disjE; simp add: commandChain_def)
  show ?thesis
    by (simp add: executeTokens_chain chain branch os_write_def emit_emit)
qed

lemma disassemble_arity:
  assumes cmd: "command = ''disassemble'' \<or> command = ''dis''"
    and arg: "remove1 ''-offsets'' args = a # b # others"
  shows "executeTokens analyzer st (command # args)
     = Inr (emit st (printHelp (Some command)), False)"
proof -
  from cmd have ne: "command \<noteq> ''-offsets''" by auto
  have flag: "findAndRemoveOne (command # args) ''-offsets''
      = (command # a # b # others, ''-offsets'' \<in> set args)"
    using remove_flag [OF ne, of args] arg by simp
  have branch: "disassembleBranch st command (command # args)
      = Inr (emit st (printHelp (Some command)), Return False)"
    unfolding disassembleBranch_def flag
    by (simp add: DisassemblerOptionsHolder_def DisassemblerOptionsHolder_destroy_def
        getOptions_def setOptions_def emit_def)
  from cmd have chain:
    "commandChain analyzer st command (command # args)
       = disassembleBranch st command (command # args)"
    by (elim disjE; simp add: commandChain_def)
  show ?thesis
    by (simp add: executeTokens_chain chain branch)
qed

lemma offset_all:
  assumes cmd: "command = ''offset'' \<or> command = ''offsets''"
    and arg: "remove1 ''-json'' args = []"
  shows "executeTokens analyzer st (command # args) =
     Inr (emit st [Call (DumpAllFunctionOffsets (''-json'' \<in> set args)), Os ''\<newline>''], False)"
proof -
  from cmd have ne: "command \<noteq> ''-json''" by auto
  have flag: "findAndRemoveOne (command # args) ''-json'' = ([command], ''-json'' \<in> set args)"
    using remove_flag [OF ne, of args] arg by simp
  have branch: "offsetBranch st (command # args)
      = Inr (service st (DumpAllFunctionOffsets (''-json'' \<in> set args)), EndOfChain)"
    by (simp add: offsetBranch_def flag)
  from cmd have chain:
    "commandChain analyzer st command (command # args) = offsetBranch st (command # args)"
    by (elim disjE; simp add: commandChain_def)
  show ?thesis
    by (simp add: executeTokens_chain chain branch service_def os_write_def emit_emit)
qed

lemma atVirtual_arity:
  assumes cmd: "command = ''at_virtual'' \<or> command = ''at-virtual''"
    and arg: "length (remove1 ''-json'' args) \<noteq> 1"
  shows "executeTokens analyzer st (command # args)
     = Inr (emit st (printHelp (Some command)), False)"
proof -
  from cmd have ne: "command \<noteq> ''-json''" by auto
  have flag: "findAndRemoveOne (command # args) ''-json''
      = (command # remove1 ''-json'' args, ''-json'' \<in> set args)"
    using remove_flag [OF ne, of args] by simp
  have branch: "atVirtualBranch analyzer st command (command # args)
      = Inr (emit st (printHelp (Some command)), Return False)"
    using arg by (simp add: atVirtualBranch_def flag)
  from cmd have chain:
    "commandChain analyzer st command (command # args)
       = atVirtualBranch analyzer st command (command # args)"
    by (elim disjE; simp add: commandChain_def)
  show ?thesis
    by (simp add: executeTokens_chain chain branch)
qed

lemma executeTokens_unknown:
  assumes "command \<notin> {''function'', ''fun'', ''instruction'', ''inst'', ''disassemble'', ''dis'',
      ''string'', ''str'', ''filename'', ''offset'', ''offsets'', ''io'', ''summary'', ''sum'',
      ''block'', ''at_virtual'', ''at-virtual'', ''epilogue'', ''epi'', ''help'', ''h'', ''quit''}"
  shows "executeTokens analyzer st (command # args)
     = Inr (emit st (printHelp (Some command)), False)"
  using assms by (simp add: executeTokens_chain commandChain_def)

lemma executeTokens_help_any:
  assumes "command = ''help'' \<or> command = ''h''"
  shows "executeTokens analyzer st (command # args)
     = Inr (emit st (printHelp (if length args = 1 then Some (args ! 0) else None)), False)"
  using assms
  by (elim disjE; simp add: executeTokens_chain commandChain_def helpBranch_def tokenAt_def)

lemma separator_shape [simp]:
  "separatorOnly [Call c, Os ''\<newline>'']"
  "separatorOnly [Os ''Virtual offset '', OsNum v, Os '' is invalid.\<newline>'', Os ''\<newline>'']"
  by (simp_all add: separatorOnly_def)

lemma function_separator:
  assumes cmd: "command = ''function'' \<or> command = ''fun''"
  shows "\<exists>evs r. executeTokens analyzer st (command # args) = Inr (emit st evs, r) \<and>
           (if optionalId args then \<not> r \<and> separatorOnly evs else Os ''\<newline>'' \<notin> set evs)"
proof (cases args rule: optionalId.cases)
  case 1
  then show ?thesis by (auto simp add: function_all [OF cmd])
next
  case (2 tok)
  then show ?thesis
    by (auto simp add: function_numeric [OF cmd] parses_def os_write_def parseErrorMessage_def
        split: option.split)
next
  case (3 tok v va)
  then show ?thesis by (auto simp add: function_arity [OF cmd] printHelp_no_Os)
qed

lemma instruction_separator:
  assumes cmd: "command = ''instruction'' \<or> command = ''inst''"
  shows "\<exists>evs r. executeTokens analyzer st (command # args) = Inr (emit st evs, r) \<and>
           (if args = [] then \<not> r \<and> separatorOnly evs else Os ''\<newline>'' \<notin> set evs)"
proof (cases args)
  case Nil
  then show ?thesis by (auto simp add: instruction_all [OF cmd])
next
  case (Cons a others)
  then show ?thesis by (auto simp add: instruction_arity [OF cmd] printHelp_no_Os)
qed

lemma disassemble_separator:
  assumes cmd: "command = ''disassemble'' \<or> command = ''dis''"
  shows "\<exists>evs r. executeTokens analyzer st (command # args) = Inr (emit st evs, r) \<and>
           (if optionalId (remove1 ''-offsets'' args) then \<not> r \<and> separatorOnly evs
            else Os ''\<newline>'' \<notin> set evs)"
proof (cases "remove1 ''-offsets'' args" rule: optionalId.cases)
  case 1
  then show ?thesis by (auto simp add: disassemble_all [OF cmd])
next
  case (2 tok)
  then show ?thesis
    by (auto simp add: disassemble_numeric [OF cmd] parses_def os_write_def parseErrorMessage_def
        split: option.split)
next
  case (3 tok v va)
  then show ?thesis by (auto simp add: disassemble_arity [OF cmd] printHelp_no_Os)
qed

lemma string_separator:
  assumes cmd: "command = ''string'' \<or> command = ''str''"
  shows "\<exists>evs r. executeTokens analyzer st [command, tok] = Inr (emit st evs, r) \<and>
           (if parses tok then \<not> r \<and> separatorOnly evs else Os ''\<newline>'' \<notin> set evs)"
  by (auto simp add: string_numeric [OF cmd] parses_def os_write_def parseErrorMessage_def
      split: option.split)

lemma filename_separator:
  "\<exists>evs r. executeTokens analyzer st [''filename'', tok] = Inr (emit st evs, r) \<and>
           (if parses tok then \<not> r \<and> separatorOnly evs else Os ''\<newline>'' \<notin> set evs)"
  by (auto simp add: filename_numeric parses_def os_write_def parseErrorMessage_def
      split: option.split)

lemma offset_separator:
  assumes cmd: "command = ''offset'' \<or> command = ''offsets''"
    and covered: "length (remove1 ''-json'' args) \<le> 1"
  shows "\<exists>evs r. executeTokens analyzer st (command # args) = Inr (emit st evs, r) \<and>
           (if optionalId (remove1 ''-json'' args) then \<not> r \<and> separatorOnly evs
            else Os ''\<newline>'' \<notin> set evs)"
proof (cases "remove1 ''-json'' args" rule: optionalId.cases)
  case 1
  then show ?thesis by (auto simp add: offset_all [OF cmd])
next
  case (2 tok)
  then show ?thesis
    by (auto simp add: offset_numeric [OF cmd] parses_def os_write_def parseErrorMessage_def
        split: option.split)
next
  case (3 tok v va)
  with covered show ?thesis by simp
qed

lemma atVirtual_separator:
  assumes cmd: "command = ''at_virtual'' \<or> command = ''at-virtual''"
  shows "\<exists>evs r. executeTokens analyzer st (command # args) = Inr (emit st evs, r) \<and>
           (if oneId (remove1 ''-json'' args) then \<not> r \<and> separatorOnly evs
            else Os ''\<newline>'' \<notin> set evs)"
proof (cases "remove1 ''-json'' args" rule: oneId.cases)
  case 1
  then show ?thesis by (auto simp add: atVirtual_arity [OF cmd] printHelp_no_Os)
next
  case (2 tok)
  then show ?thesis
    by (auto simp add: atVirtual_numeric [OF cmd] parses_def os_write_def parseErrorMessage_def
        split: option.split)
next
  case (3 tok v va)
  then show ?thesis by (auto simp add: atVirtual_arity [OF cmd] printHelp_no_Os)
qed

lemma executeTokens_dump:
  "executeTokens analyzer st (''io'' # rest) = Inr (emit st [Call DumpIO, Os ''\<newline>''], False)"
  "executeTokens analyzer st (''summary'' # rest) = Inr (emit st [Call DumpSummary, Os ''\<newline>''], False)"
  "executeTokens analyzer st (''sum'' # rest) = Inr (emit st [Call DumpSummary, Os ''\<newline>''], False)"
  "executeTokens analyzer st (''block'' # rest)
     = Inr (emit st [Call DumpBasicBlockStats, Os ''\<newline>''], False)"
  "executeTokens analyzer st (''epilogue'' # rest)
     = Inr (emit st [Call DumpEpilogue, Os ''\<newline>''], False)"
  "executeTokens analyzer st (''epi'' # rest) = Inr (emit st [Call DumpEpilogue, Os ''\<newline>''], False)"
  by (simp_all add: executeTokens_chain commandChain_def service_def os_write_def emit_emit)

lemma separator_cases:
  assumes covered: "\<not> notCovered command args"
  shows "\<exists>evs r. executeTokens analyzer st (command # args) = Inr (emit st evs, r) \<and>
           (if acceptedWithSeparator command args then \<not> r \<and> separatorOnly evs
            else Os ''\<newline>'' \<notin> set evs)"
proof (rule ccontr)
  assume neg: "\<not> ?thesis"
  have function_cmd: ?thesis if cmd: "command = ''function'' \<or> command = ''fun''"
  proof -
    from cmd have "acceptedWithSeparator command args = optionalId args"
      by (elim disjE; simp add: acceptedWithSeparator_def)
    with function_separator [OF cmd] show ?thesis by simp
  qed
  have instruction_cmd: ?thesis if cmd: "command = ''instruction'' \<or> command = ''inst''"
  proof -
    from cmd have "acceptedWithSeparator command args = (args = [])"
      by (elim disjE; simp add: acceptedWithSeparator_def)
    with instruction_separator [OF cmd] show ?thesis by simp
  qed
  have disassemble_cmd: ?thesis if cmd: "command = ''disassemble'' \<or> command = ''dis''"
  proof -
    from cmd have "acceptedWithSeparator command args = optionalId (remove1 ''-offsets'' args)"
      by (elim disjE; simp add: acceptedWithSeparator_def)
    with disassemble_separator [OF cmd] show ?thesis by simp
  qed
  have string_cmd: ?thesis if cmd: "command = ''string'' \<or> command = ''str''"
  proof -
    from cmd covered have "length args = 1"
      by (auto simp: notCovered_def)
    then obtain tok where args: "args = [tok]"
      by (cases args) auto
    from cmd have "acceptedWithSeparator command args = oneId args"
      by (elim disjE; simp add: acceptedWithSeparator_def)
    with string_separator [OF cmd, of analyzer st tok] args show ?thesis by simp
  qed
  have filename_cmd: ?thesis if cmd: "command = ''filename''"
  proof -
    from cmd covered have "length args = 1"
      by (auto simp: notCovered_def)
    then obtain tok where args: "args = [tok]"
      by (cases args) auto
    from cmd have "acceptedWithSeparator command args = oneId args"
      by (simp add: acceptedWithSeparator_def)
    with filename_separator [of analyzer st tok] args cmd show ?thesis by simp
  qed
  have offset_cmd: ?thesis if cmd: "command = ''offset'' \<or> command = ''offsets''"
  proof -
    from cmd covered have short: "length (remove1 ''-json'' args) \<le> 1"
      by (auto simp: notCovered_def)
    from cmd have "acceptedWithSeparator command args = optionalId (remove1 ''-json'' args)"
      by (elim disjE; simp add: acceptedWithSeparator_def)
    with offset_separator [OF cmd short] show ?thesis by simp
  qed
  have dump_cmd: ?thesis
    if cmd: "command = ''io'' \<or> command = ''summary'' \<or> command = ''sum'' \<or> command = ''block'' \<or>
      command = ''epilogue'' \<or> command = ''epi''"
  proof -
    from cmd have "acceptedWithSeparator command args"
      by (elim disjE; simp add: acceptedWithSeparator_def)
    moreover from cmd have "\<exists>c. executeTokens analyzer st (command # args)
        = Inr (emit st [Call c, Os ''\<newline>''], False)"
      by (elim disjE; simp add: executeTokens_dump)
    ultimately show ?thesis by auto
  qed
  have atVirtual_cmd: ?thesis if cmd: "command = ''at_virtual'' \<or> command = ''at-virtual''"
  proof -
    from cmd have "acceptedWithSeparator command args = oneId (remove1 ''-json'' args)"
      by (elim disjE; simp add: acceptedWithSeparator_def)
    with atVirtual_separator [OF cmd] show ?thesis by simp
  qed
  have help_cmd: ?thesis if cmd: "command = ''help'' \<or> command = ''h''"
  proof -
    from cmd have "\<not> acceptedWithSeparator command args"
      by (elim disjE; simp add: acceptedWithSeparator_def)
    then show ?thesis
      by (auto simp: executeTokens_help_any [OF cmd] printHelp_no_Os)
  qed
  have quit_cmd: ?thesis if cmd: "command = ''quit''"
  proof -
    from cmd have "\<not> acceptedWithSeparator command args"
      by (simp add: acceptedWithSeparator_def)
    moreover from cmd have "executeTokens analyzer st (command # args) = Inr (emit st [], True)"
      by (simp add: executeTokens_quit emit_Nil)
    ultimately show ?thesis by auto
  qed
  have n1: "\<not> (command = ''function'' \<or> command = ''fun'')"
    by (rule contrapos_nn [OF neg]) (rule function_cmd)
  have n2: "\<not> (command = ''instruction'' \<or> command = ''inst'')"
    by (rule contrapos_nn [OF neg]) (rule instruction_cmd)
  have n3: "\<not> (command = ''disassemble'' \<or> command = ''dis'')"
    by (rule contrapos_nn [OF neg]) (rule disassemble_cmd)
  have n4: "\<not> (command = ''string'' \<or> command = ''str'')"
    by (rule contrapos_nn [OF neg]) (rule string_cmd)
  have n5: "\<not> command = ''filename''"
    by (rule contrapos_nn [OF neg]) (rule filename_cmd)
  have n6: "\<not> (command = ''offset'' \<or> command = ''offsets'')"
    by (rule contrapos_nn [OF neg]) (rule offset_cmd)
  have n7: "\<not> (command = ''io'' \<or> command = ''summary'' \<or> command = ''sum'' \<or>
      command = ''block'' \<or> command = ''epilogue'' \<or> command = ''epi'')"
    by (rule contrapos_nn [OF neg]) (rule dump_cmd)
  have n8: "\<not> (command = ''at_virtual'' \<or> command = ''at-virtual'')"
    by (rule contrapos_nn [OF neg]) (rule atVirtual_cmd)
  have n9: "\<not> (command = ''help'' \<or> command = ''h'')"
    by (rule contrapos_nn [OF neg]) (rule help_cmd)
  have n10: "\<not> command = ''quit''"
    by (rule contrapos_nn [OF neg]) (rule quit_cmd)
  from n1 n2 n3 n4 n5 n6 n7 n8 n9 n10
  have unknown: "command \<notin> {''function'', ''fun'', ''instruction'', ''inst'', ''disassemble'',
        ''dis'', ''string'', ''str'', ''filename'', ''offset'', ''offsets'', ''io'', ''summary'',
        ''sum'', ''block'', ''at_virtual'', ''at-virtual'', ''epilogue'', ''epi'', ''help'', ''h'',
        ''quit''}"
    by simp
  then have "\<not> acceptedWithSeparator command args"
    by (simp add: acceptedWithSeparator_def)
  then have ?thesis
    by (auto simp: executeTokens_unknown [OF unknown] printHelp_no_Os)
  with neg show False ..
qed

text \<open>
  Claim C6, amended. Every command completes with a session that differs from the one
  before by the events \<open>evs\<close> it appended. After a command for which the separator is
  due (\<open>acceptedWithSeparator\<close>) the result is false, and the events end with the
  separator and contain it once. After \<^verbatim>\<open>help\<close>, \<^verbatim>\<open>quit\<close>, an unknown command, an
  unparsable numeric argument and a wrong number of arguments to \<^verbatim>\<open>function\<close>,
  \<^verbatim>\<open>instruction\<close>, \<^verbatim>\<open>disassemble\<close> or \<^verbatim>\<open>at_virtual\<close>, the events do not contain the
  separator. The shapes of \<open>notCovered\<close> are left out.
\<close>

theorem separator_after_accepted_command:
  assumes "\<not> notCovered command args"
  shows "\<exists>evs r. executeTokens analyzer st (command # args) = Inr (emit st evs, r) \<and>
           (if acceptedWithSeparator command args then \<not> r \<and> separatorOnly evs
            else Os ''\<newline>'' \<notin> set evs)"
  using assms by (rule separator_cases)


lemmas getAsInteger_eval = getAsInteger_def getAsUnsignedInteger_def consumeUnsignedInteger_def
  GetAutoSenseRadix_def startswith_def CharVal_def isDigit_def


text \<open>
  Claim C6 as stated fails for \<^verbatim>\<open>help\<close>, a recognised and well-formed command that
  returns false without the separator, and for \<^verbatim>\<open>offsets 1 2\<close>, a wrong number of
  arguments after which the separator is written.
\<close>

theorem help_writes_no_separator_counterexample:
  "executeCommand noFunctions (initialSession True) ''help''
     = Inr (emit (initialSession True) (printHelp None), False) \<and>
   Os ''\<newline>'' \<notin> set (printHelp None) \<and>
   executeCommand noFunctions (initialSession True) ''offsets 1 2''
     = Inr (emit (initialSession True) [Os ''Usage: offsets [funcId]\<newline>'', Os ''\<newline>''], False)"
proof -
  have "executeCommand noFunctions (initialSession True) ''offsets 1 2''
     = Inr (emit (initialSession True) [Os ''Usage: offsets [funcId]\<newline>'', Os ''\<newline>''], False)"
    by (simp add: executeCommand_def StringRef_split.simps executeTokens_chain commandChain_def
        offsetBranch_def findAndRemoveOne_def os_write_def emit_emit)
  then show ?thesis
    by (simp add: executeCommand_def split_single executeTokens_help_any printHelp_no_Os)
qed

theorem separator_after_accepted_command_witness:
  "\<not> notCovered ''dis'' [''-offsets'', ''0x10''] \<and>
   acceptedWithSeparator ''dis'' [''-offsets'', ''0x10''] \<and>
   (\<exists>evs. executeTokens noFunctions (initialSession True) [''dis'', ''-offsets'', ''0x10'']
            = Inr (emit (initialSession True) evs, False) \<and> separatorOnly evs) \<and>
   \<not> notCovered ''dis'' [''1'', ''2''] \<and>
   \<not> acceptedWithSeparator ''dis'' [''1'', ''2''] \<and>
   (\<exists>evs r. executeTokens noFunctions (initialSession True) [''dis'', ''1'', ''2'']
            = Inr (emit (initialSession True) evs, r) \<and> Os ''\<newline>'' \<notin> set evs)"
proof -
  have c1: "\<not> notCovered ''dis'' [''-offsets'', ''0x10'']"
    by (simp add: notCovered_def)
  have a1: "acceptedWithSeparator ''dis'' [''-offsets'', ''0x10'']"
    by (simp add: acceptedWithSeparator_def parses_def getAsInteger_eval)
  have c2: "\<not> notCovered ''dis'' [''1'', ''2'']"
    by (simp add: notCovered_def)
  have a2: "\<not> acceptedWithSeparator ''dis'' [''1'', ''2'']"
    by (simp add: acceptedWithSeparator_def)
  from separator_after_accepted_command [OF c1, of noFunctions "initialSession True"] a1
  have r1: "\<exists>evs. executeTokens noFunctions (initialSession True) [''dis'', ''-offsets'', ''0x10'']
            = Inr (emit (initialSession True) evs, False) \<and> separatorOnly evs"
    by auto
  from separator_after_accepted_command [OF c2, of noFunctions "initialSession True"] a2
  have r2: "\<exists>evs r. executeTokens noFunctions (initialSession True) [''dis'', ''1'', ''2'']
            = Inr (emit (initialSession True) evs, r) \<and> Os ''\<newline>'' \<notin> set evs"
    by auto
  from c1 a1 r1 c2 a2 r2 show ?thesis by blast
qed

subsection \<open>Reads past the end of the token sequence\<close>

lemma offset_usage:
  assumes cmd: "command = ''offset'' \<or> command = ''offsets''"
    and arg: "length (remove1 ''-json'' args) > 1"
  shows "executeTokens analyzer st (command # args)
     = Inr (emit st [Os ''Usage: offsets [funcId]\<newline>'', Os ''\<newline>''], False)"
proof -
  from cmd have ne: "command \<noteq> ''-json''" by auto
  have flag: "findAndRemoveOne (command # args) ''-json''
      = (command # remove1 ''-json'' args, ''-json'' \<in> set args)"
    using remove_flag [OF ne, of args] by simp
  have branch: "offsetBranch st (command # args)
      = Inr (os_write st ''Usage: offsets [funcId]\<newline>'', EndOfChain)"
    using arg by (auto simp add: offsetBranch_def flag)
  from cmd have chain:
    "commandChain analyzer st command (command # args) = offsetBranch st (command # args)"
    by (elim disjE; simp add: commandChain_def)
  show ?thesis
    by (simp add: executeTokens_chain chain branch os_write_def emit_emit)
qed

lemma string_missing:
  assumes "command = ''string'' \<or> command = ''str'' \<or> command = ''filename''"
  shows "executeTokens analyzer st [command] = Inl OutOfBounds"
  using assms
  by (elim disjE; simp add: executeTokens_chain commandChain_def stringBranch_def
      filenameBranch_def tokenAt_def)

lemma string_present:
  assumes "command = ''string'' \<or> command = ''str'' \<or> command = ''filename''"
  shows "\<exists>r. executeTokens analyzer st (command # tok # rest) = Inr r"
  using assms
  by (elim disjE; auto simp add: string_numeric filename_numeric split: option.split)

lemma executeTokens_error_iff:
  "executeTokens analyzer st commandTokens = Inl e \<longleftrightarrow>
     e = OutOfBounds \<and> commandTokens \<in> {[''string''], [''str''], [''filename'']}"
proof (cases commandTokens)
  case Nil
  then show ?thesis by (simp add: executeTokens_def)
next
  case (Cons command args)
  show ?thesis
  proof (cases "notCovered command args")
    case False
    from separator_cases [OF False, of analyzer st]
    obtain r where "executeTokens analyzer st (command # args) = Inr r" by blast
    moreover from False have "command # args \<notin> {[''string''], [''str''], [''filename'']}"
      by (cases args) (auto simp: notCovered_def)
    ultimately show ?thesis using Cons by simp
  next
    case True
    then have "(command = ''offset'' \<or> command = ''offsets'') \<and>
          length (remove1 ''-json'' args) > 1 \<or>
        (command = ''string'' \<or> command = ''str'' \<or> command = ''filename'')"
      by (simp add: notCovered_def) blast
    then show ?thesis
    proof
      assume "(command = ''offset'' \<or> command = ''offsets'') \<and>
          length (remove1 ''-json'' args) > 1"
      then have usage: "command = ''offset'' \<or> command = ''offsets''"
        "length (remove1 ''-json'' args) > 1"
        by simp_all
      from usage(1) have "command # args \<notin> {[''string''], [''str''], [''filename'']}"
        by (elim disjE; simp)
      with offset_usage [OF usage, of analyzer st] Cons show ?thesis by simp
    next
      assume str: "command = ''string'' \<or> command = ''str'' \<or> command = ''filename''"
      show ?thesis
      proof (cases args)
        case Nil
        from str have "[command] \<in> {[''string''], [''str''], [''filename'']}"
          by (elim disjE; simp)
        with Nil string_missing [OF str, of analyzer st] Cons show ?thesis
          by (cases e) simp
      next
        case (Cons tok rest)
        with string_present [OF str, of analyzer st tok rest] \<open>commandTokens = command # args\<close>
        show ?thesis by auto
      qed
    qed
  qed
qed

text \<open>
  Claim C3 (the code does otherwise). The branches of \<^verbatim>\<open>string\<close>, \<^verbatim>\<open>str\<close> and
  \<^verbatim>\<open>filename\<close> read the token at position 1 without looking at the number of tokens.
  Given the command alone they read past the end of the sequence; no message is written
  and nothing is returned. These are the only token sequences on which the dispatcher
  reads out of bounds: every other branch tests the length first.
\<close>

theorem string_without_argument_out_of_bounds:
  "executeCommand analyzer st ''string'' = Inl OutOfBounds \<and>
   executeCommand analyzer st ''str'' = Inl OutOfBounds \<and>
   executeCommand analyzer st ''filename'' = Inl OutOfBounds \<and>
   (executeTokens analyzer st commandTokens = Inl e \<longleftrightarrow>
      e = OutOfBounds \<and> commandTokens \<in> {[''string''], [''str''], [''filename'']})"
  by (simp add: executeCommand_def split_single executeTokens_error_iff)

end
